theory Spec2Isabelle
  imports Main
begin

section \<open>Thrown values\<close>

text \<open>
  Both code bases throw JavaScript errors. \<open>Error msg\<close> is \<^verbatim>\<open>new Error(msg)\<close>;
  \<open>TranslatedError code appId\<close> is \<^verbatim>\<open>new TranslatedError(code, { id: appId })\<close>.
\<close>

datatype exn = Error string | TranslatedError string string

section \<open>Server: app records and the restart command\<close>

text \<open>
  Modelled from the spec: the type \<^verbatim>\<open>AppStatus\<close> is declared in the package
  \<^verbatim>\<open>@runtipi/db\<close>, which is not among the sources. Its values are the persisted states
  of section 4.5 of the specification; the state \<^verbatim>\<open>missing\<close> is "no record".
  The restart command itself writes the literals \<^verbatim>\<open>'restarting'\<close>, \<^verbatim>\<open>'running'\<close>
  and \<^verbatim>\<open>'stopped'\<close>.
\<close>

datatype AppStatus =
  Installing | Running | Stopped | Updating | Restarting | Uninstalling | Errored

text \<open>A row of the app table, without its key; \<open>'c\<close> is the type of the stored configuration.\<close>

record 'c App =
  status :: AppStatus
  config :: 'c

text \<open>\<^verbatim>\<open>Partial<NewApp>\<close>: the columns an update sets.\<close>

record 'c AppPatch =
  set_status :: "AppStatus option"
  set_config :: "'c option"

definition status_patch :: "AppStatus \<Rightarrow> 'c AppPatch" where
  "status_patch st = \<lparr>set_status = Some st, set_config = None\<rparr>"

definition apply_patch :: "'c AppPatch \<Rightarrow> 'c App \<Rightarrow> 'c App" where
  "apply_patch p a =
     \<lparr>status = (case set_status p of None \<Rightarrow> status a | Some st \<Rightarrow> st),
      config = (case set_config p of None \<Rightarrow> config a | Some c \<Rightarrow> c)\<rparr>"

text \<open>The event handed to the dispatcher, and what the dispatcher resolves with.\<close>

record 'f EventSchema =
  ev_type :: string
  command :: string
  appid :: string
  form :: 'f

record DispatchResult =
  success_ev :: bool
  stdout_ev :: string

text \<open>
  The observable effects of the command, in the order they are performed: writes to the
  app table, events handed to the dispatcher, and error lines of the logger.
\<close>

datatype ('c, 'f) effect =
    UpdateApp string "'c AppPatch"
  | DispatchEventAsync "'f EventSchema"
  | LoggerError string

record ('c, 'f) world =
  appTable :: "string \<rightharpoonup> 'c App"
  effects :: "('c, 'f) effect list"

subsection \<open>The queries (apps.queries.ts)\<close>

definition getApp :: "string \<Rightarrow> ('c, 'f) world \<Rightarrow> 'c App option" where
  "getApp appId w = appTable w appId"

text \<open>
  \<^verbatim>\<open>update(appTable).set(data).where(eq(appTable.id, appId)).returning()\<close>, first row:
  a missing id updates nothing and yields \<^verbatim>\<open>undefined\<close>.
\<close>

definition updateApp ::
  "string \<Rightarrow> 'c AppPatch \<Rightarrow> ('c, 'f) world \<Rightarrow> 'c App option \<times> ('c, 'f) world" where
  "updateApp appId data w =
     (case appTable w appId of
        None \<Rightarrow> (None, w\<lparr>effects := effects w @ [UpdateApp appId data]\<rparr>)
      | Some a \<Rightarrow>
          (Some (apply_patch data a),
           w\<lparr>appTable := (appTable w)(appId \<mapsto> apply_patch data a),
             effects := effects w @ [UpdateApp appId data]\<rparr>))"

subsection \<open>RestartAppCommand (restart-app-command.ts)\<close>

definition restart_event :: "string \<Rightarrow> 'f \<Rightarrow> 'f EventSchema" where
  "restart_event appId f =
     \<lparr>ev_type = ''app'', command = ''restart'', appid = appId, form = f\<rparr>"

text \<open>
  \<^verbatim>\<open>sendEvent\<close> runs in two parts. Up to its first \<^verbatim>\<open>await\<close> it hands the restart event
  to the dispatcher (\<open>sendEvent_begin\<close>). When the dispatcher settles, the rest runs with
  the outcome (\<open>sendEvent_resume\<close>): \<open>Inr r\<close> is the resolved \<^verbatim>\<open>{ success, stdout }\<close>,
  \<open>Inl e\<close> a rejected promise, which \<^verbatim>\<open>sendEvent\<close> does not catch.
\<close>

definition sendEvent_begin :: "string \<Rightarrow> 'f \<Rightarrow> ('c, 'f) world \<Rightarrow> ('c, 'f) world" where
  "sendEvent_begin appId f w =
     w\<lparr>effects := effects w @ [DispatchEventAsync (restart_event appId f)]\<rparr>"

definition restart_failure_message :: "string \<Rightarrow> string \<Rightarrow> string" where
  "restart_failure_message appId out = ''Failed to restart app '' @ appId @ '': '' @ out"

definition sendEvent_resume ::
  "string \<Rightarrow> exn + DispatchResult \<Rightarrow> ('c, 'f) world \<Rightarrow> (exn + unit) \<times> ('c, 'f) world" where
  "sendEvent_resume appId outcome w =
     (case outcome of
        Inl e \<Rightarrow> (Inl e, w)
      | Inr r \<Rightarrow>
          if success_ev r then (Inr (), snd (updateApp appId (status_patch Running) w))
          else
            (Inr (),
             snd (updateApp appId (status_patch Stopped)
                    (w\<lparr>effects := effects w @
                         [LoggerError (restart_failure_message appId (stdout_ev r))]\<rparr>))))"

definition sendEvent ::
  "string \<Rightarrow> 'f \<Rightarrow> exn + DispatchResult \<Rightarrow> ('c, 'f) world \<Rightarrow> (exn + unit) \<times> ('c, 'f) world" where
  "sendEvent appId f outcome w = sendEvent_resume appId outcome (sendEvent_begin appId f w)"

text \<open>
  \<^verbatim>\<open>execute\<close> looks the app up, throws when there is none, writes \<^verbatim>\<open>restarting\<close>, starts
  \<^verbatim>\<open>sendEvent\<close> without awaiting it (\<^verbatim>\<open>void this.sendEvent(...)\<close>) and returns. The helper
  \<^verbatim>\<open>castAppConfig\<close> is not among the sources and is a parameter.
\<close>

definition RestartAppCommand_execute ::
  "('c \<Rightarrow> 'f) \<Rightarrow> string \<Rightarrow> ('c, 'f) world \<Rightarrow> (exn + unit) \<times> ('c, 'f) world" where
  "RestartAppCommand_execute castAppConfig appId w =
     (case getApp appId w of
        None \<Rightarrow> (Inl (TranslatedError ''APP_ERROR_APP_NOT_FOUND'' appId), w)
      | Some app \<Rightarrow>
          (Inr (),
           sendEvent_begin appId (castAppConfig (config app))
             (snd (updateApp appId (status_patch Restarting) w))))"

text \<open>The whole restart: \<^verbatim>\<open>execute\<close>, then the dispatcher settles and \<^verbatim>\<open>sendEvent\<close> resumes.\<close>

definition restart_run ::
  "('c \<Rightarrow> 'f) \<Rightarrow> string \<Rightarrow> exn + DispatchResult \<Rightarrow> ('c, 'f) world \<Rightarrow> ('c, 'f) world" where
  "restart_run castAppConfig appId outcome w =
     (case RestartAppCommand_execute castAppConfig appId w of
        (Inl e, w') \<Rightarrow> w'
      | (Inr u, w') \<Rightarrow> snd (sendEvent_resume appId outcome w'))"

definition status_of :: "('c, 'f) world \<Rightarrow> string \<Rightarrow> AppStatus option" where
  "status_of w appId = map_option status (appTable w appId)"

subsection \<open>Example worlds\<close>

definition w_installing :: "(unit, unit) world" where
  "w_installing =
     \<lparr>appTable = [''blog'' \<mapsto> \<lparr>status = Installing, config = ()\<rparr>], effects = []\<rparr>"

definition w_running :: "(unit, unit) world" where
  "w_running =
     \<lparr>appTable = [''notes'' \<mapsto> \<lparr>status = Running, config = ()\<rparr>], effects = []\<rparr>"

definition w_empty :: "(unit, unit) world" where
  "w_empty = \<lparr>appTable = Map.empty, effects = []\<rparr>"

definition engine_failed :: DispatchResult where
  "engine_failed = \<lparr>success_ev = False, stdout_ev = ''exit 1''\<rparr>"

section \<open>Backend: paths\<close>

text \<open>\<^verbatim>\<open>String.prototype.split\<close> with a one-character separator.\<close>

fun split_on :: "char \<Rightarrow> string \<Rightarrow> string list" where
  "split_on c [] = [[]]"
| "split_on c (x # xs) =
     (if x = c then [] # split_on c xs
      else (case split_on c xs of [] \<Rightarrow> [[x]] | s # ss \<Rightarrow> (x # s) # ss))"

text \<open>\<^verbatim>\<open>Array.prototype.join\<close>.\<close>

fun join_with :: "string \<Rightarrow> string list \<Rightarrow> string" where
  "join_with sep [] = []"
| "join_with sep [s] = s"
| "join_with sep (s # t # ss) = s @ sep @ join_with sep (t # ss)"

text \<open>
  \<^verbatim>\<open>path.join\<close> of Node.js on POSIX, which the sources import from \<^verbatim>\<open>node:path\<close>: the
  non-empty arguments are joined with \<^verbatim>\<open>/\<close> and the result is normalised. One step of the
  normalisation handles one segment; the segments kept so far are held last first.
  Empty segments and \<^verbatim>\<open>.\<close> are dropped, \<^verbatim>\<open>..\<close> removes the segment before it, or is kept
  when there is none to remove and the path is relative.
\<close>

definition normalize_segment :: "bool \<Rightarrow> string list \<Rightarrow> string \<Rightarrow> string list" where
  "normalize_segment allowAboveRoot res seg =
     (if seg = [] \<or> seg = ''.'' then res
      else if seg = ''..'' then
        (case res of
           [] \<Rightarrow> if allowAboveRoot then [''..''] else []
         | r # rs \<Rightarrow>
             if r = ''..'' then (if allowAboveRoot then ''..'' # res else res) else rs)
      else seg # res)"

definition posix_normalize :: "string \<Rightarrow> string" where
  "posix_normalize p =
     (if p = [] then ''.''
      else
        let isAbsolute = (hd p = CHR ''/'');
            trailingSeparator = (last p = CHR ''/'');
            body = join_with ''/''
                     (rev (foldl (normalize_segment (\<not> isAbsolute)) [] (split_on CHR ''/'' p)))
        in if body = [] then
             (if isAbsolute then ''/'' else if trailingSeparator then ''./'' else ''.'')
           else (if isAbsolute then ''/'' else [])
                  @ body @ (if trailingSeparator then ''/'' else []))"

definition path_join :: "string list \<Rightarrow> string" where
  "path_join args =
     (let joined = join_with ''/'' (filter (\<lambda>a. a \<noteq> []) args)
      in if joined = [] then ''.'' else posix_normalize joined)"

section \<open>Backend: configuration, collaborators and effects\<close>

record Directories =
  dataDir :: string
  appDataDir_root :: string

record Config =
  directories :: Directories
  architecture :: string

datatype level = Level_info | Level_warn | Level_error | Level_debug

text \<open>
  A call to a collaborator: the filesystem service, \<^verbatim>\<open>execAsync\<close>, the docker service,
  the base class's \<^verbatim>\<open>ensureAppDir\<close>, the logger. \<open>'f\<close> is the type of the event form.
\<close>

datatype 'f call =
    PathExists string
  | ReadTextFile string
  | ReadJsonFile string
  | WriteTextFile string string
  | RemoveDirectory string
  | CreateDirectory string
  | ExecAsync string
  | ComposeApp string string
  | EnsureAppDir string 'f
  | Logger level string "exn option"

text \<open>
  None of the collaborators is among the sources. Each is a parameter: the environment
  decides the outcome of a call from the calls made so far and the call's arguments,
  \<open>Inl e\<close> for a rejected promise. \<^verbatim>\<open>JSON.parse\<close> and the schema \<^verbatim>\<open>appInfoSchema\<close> are
  pure; \<open>'j\<close> is the type of JSON values and \<open>available\<close> reads the field of that name.
\<close>

record ('j, 'f) env =
  fs_pathExists :: "'f call list \<Rightarrow> string \<Rightarrow> exn + bool"
  fs_readTextFile :: "'f call list \<Rightarrow> string \<Rightarrow> exn + string option"
  fs_readJsonFile :: "'f call list \<Rightarrow> string \<Rightarrow> exn + 'j option"
  fs_writeTextFile :: "'f call list \<Rightarrow> string \<Rightarrow> string \<Rightarrow> exn + unit"
  fs_removeDirectory :: "'f call list \<Rightarrow> string \<Rightarrow> exn + unit"
  fs_createDirectory :: "'f call list \<Rightarrow> string \<Rightarrow> exn + unit"
  exec_execAsync :: "'f call list \<Rightarrow> string \<Rightarrow> exn + unit"
  docker_composeApp :: "'f call list \<Rightarrow> string \<Rightarrow> string \<Rightarrow> exn + unit"
  base_ensureAppDir :: "'f call list \<Rightarrow> string \<Rightarrow> 'f \<Rightarrow> exn + unit"
  JSON_parse :: "string \<Rightarrow> exn + 'j"
  appInfoSchema_safeParse :: "'j \<Rightarrow> string + 'j"
  available :: "'j \<Rightarrow> bool"

text \<open>
  An asynchronous computation takes the calls made so far and returns its value, or what
  it threw, with the calls extended.
\<close>

type_synonym ('f, 'a) io = "'f call list \<Rightarrow> (exn + 'a) \<times> 'f call list"

definition io_return :: "'a \<Rightarrow> ('f, 'a) io" where
  "io_return x = (\<lambda>h. (Inr x, h))"

definition io_lift :: "exn + 'a \<Rightarrow> ('f, 'a) io" where
  "io_lift r = (\<lambda>h. (r, h))"

definition io_bind :: "('f, 'a) io \<Rightarrow> ('a \<Rightarrow> ('f, 'b) io) \<Rightarrow> ('f, 'b) io" where
  "io_bind m k = (\<lambda>h. case m h of (Inl e, h') \<Rightarrow> (Inl e, h') | (Inr x, h') \<Rightarrow> k x h')"

definition io_catch :: "('f, 'a) io \<Rightarrow> (exn \<Rightarrow> ('f, 'a) io) \<Rightarrow> ('f, 'a) io" where
  "io_catch m handler =
     (\<lambda>h. case m h of (Inl e, h') \<Rightarrow> handler e h' | (Inr x, h') \<Rightarrow> (Inr x, h'))"

definition io_call :: "'f call \<Rightarrow> ('f call list \<Rightarrow> exn + 'a) \<Rightarrow> ('f, 'a) io" where
  "io_call c outcome = (\<lambda>h. (outcome h, h @ [c]))"

definition pathExists :: "('j, 'f) env \<Rightarrow> string \<Rightarrow> ('f, bool) io" where
  "pathExists env p = io_call (PathExists p) (\<lambda>h. fs_pathExists env h p)"

definition readTextFile :: "('j, 'f) env \<Rightarrow> string \<Rightarrow> ('f, string option) io" where
  "readTextFile env p = io_call (ReadTextFile p) (\<lambda>h. fs_readTextFile env h p)"

definition readJsonFile :: "('j, 'f) env \<Rightarrow> string \<Rightarrow> ('f, 'j option) io" where
  "readJsonFile env p = io_call (ReadJsonFile p) (\<lambda>h. fs_readJsonFile env h p)"

definition writeTextFile :: "('j, 'f) env \<Rightarrow> string \<Rightarrow> string \<Rightarrow> ('f, unit) io" where
  "writeTextFile env p s = io_call (WriteTextFile p s) (\<lambda>h. fs_writeTextFile env h p s)"

definition removeDirectory :: "('j, 'f) env \<Rightarrow> string \<Rightarrow> ('f, unit) io" where
  "removeDirectory env p = io_call (RemoveDirectory p) (\<lambda>h. fs_removeDirectory env h p)"

definition createDirectory :: "('j, 'f) env \<Rightarrow> string \<Rightarrow> ('f, unit) io" where
  "createDirectory env p = io_call (CreateDirectory p) (\<lambda>h. fs_createDirectory env h p)"

definition execAsync :: "('j, 'f) env \<Rightarrow> string \<Rightarrow> ('f, unit) io" where
  "execAsync env cmd = io_call (ExecAsync cmd) (\<lambda>h. exec_execAsync env h cmd)"

definition composeApp :: "('j, 'f) env \<Rightarrow> string \<Rightarrow> string \<Rightarrow> ('f, unit) io" where
  "composeApp env appId cmd = io_call (ComposeApp appId cmd) (\<lambda>h. docker_composeApp env h appId cmd)"

definition ensureAppDir :: "('j, 'f) env \<Rightarrow> string \<Rightarrow> 'f \<Rightarrow> ('f, unit) io" where
  "ensureAppDir env appId f = io_call (EnsureAppDir appId f) (\<lambda>h. base_ensureAppDir env h appId f)"

definition logger :: "level \<Rightarrow> string \<Rightarrow> exn option \<Rightarrow> ('f, unit) io" where
  "logger lvl msg extra = (\<lambda>h. (Inr (), h @ [Logger lvl msg extra]))"

text \<open>The calls a computation adds when started after the calls \<open>h\<close>.\<close>

definition calls_of :: "('f, 'a) io \<Rightarrow> 'f call list \<Rightarrow> 'f call list" where
  "calls_of m h = drop (length h) (snd (m h))"

text \<open>The text of an error in a template literal, and its \<^verbatim>\<open>message\<close>.\<close>

fun exn_message :: "exn \<Rightarrow> string" where
  "exn_message (Error m) = m"
| "exn_message (TranslatedError code ident) = code"

definition exn_text :: "exn \<Rightarrow> string" where
  "exn_text e = ''Error: '' @ exn_message e"

section \<open>Backend: AppFilesManager (app-files-manager.ts)\<close>

record AppPaths =
  appDataDir :: string
  appInstalledDir :: string

record 'a FileContent =
  path :: string
  content :: 'a

text \<open>A value that may be \<^verbatim>\<open>undefined\<close> (a function running off its end) or \<^verbatim>\<open>null\<close>.\<close>

datatype 'a js = Value 'a | Undefined | Null

record 'j InstalledAppInfo =
  data :: 'j
  description :: string

definition getInstalledAppsFolder :: "Config \<Rightarrow> string" where
  "getInstalledAppsFolder cfg = path_join [dataDir (directories cfg), ''apps'']"

text \<open>
  \<^verbatim>\<open>const [store, id] = namespacedAppId.split('_')\<close> takes the first two pieces of the
  split at every underscore; a missing second piece is \<^verbatim>\<open>undefined\<close>, and \<^verbatim>\<open>!store\<close>,
  \<^verbatim>\<open>!id\<close> hold for the empty string and for \<^verbatim>\<open>undefined\<close>.
\<close>

definition invalid_app_id :: "string \<Rightarrow> exn" where
  "invalid_app_id namespacedAppId = Error (''Invalid namespaced app id: '' @ namespacedAppId)"

definition getAppPaths :: "Config \<Rightarrow> string \<Rightarrow> exn + AppPaths" where
  "getAppPaths cfg namespacedAppId =
     (case split_on CHR ''_'' namespacedAppId of
        store # ident # rest \<Rightarrow>
          if store = [] \<or> ident = [] then Inl (invalid_app_id namespacedAppId)
          else Inr \<lparr>appDataDir = path_join [appDataDir_root (directories cfg), store, ident],
                    appInstalledDir = path_join [getInstalledAppsFolder cfg, store, ident]\<rparr>
      | _ \<Rightarrow> Inl (invalid_app_id namespacedAppId))"

definition or_empty :: "string option \<Rightarrow> string" where
  "or_empty s = (case s of None \<Rightarrow> [] | Some t \<Rightarrow> t)"

definition getInstalledAppInfo ::
  "('j, 'f) env \<Rightarrow> Config \<Rightarrow> string \<Rightarrow> ('f, 'j InstalledAppInfo js) io" where
  "getInstalledAppInfo env cfg ident =
     io_catch
       (io_bind (io_lift (getAppPaths cfg ident)) (\<lambda>ps.
        io_bind (pathExists env (path_join [appInstalledDir ps, ''config.json''])) (\<lambda>ex.
          if ex then
            io_bind (readTextFile env (path_join [appInstalledDir ps, ''config.json'']))
              (\<lambda>configFile.
            io_bind (io_lift (JSON_parse env (or_empty configFile))) (\<lambda>json.
              case appInfoSchema_safeParse env json of
                Inl zodError \<Rightarrow>
                  io_bind (logger Level_debug (''App '' @ ident @ '' config error:'') None)
                    (\<lambda>u.
                  io_bind (logger Level_debug zodError None) (\<lambda>u. io_return Undefined))
              | Inr d \<Rightarrow>
                  if available env d then
                    io_bind
                      (readTextFile env
                         (path_join [appInstalledDir ps, ''metadata'', ''description.md'']))
                      (\<lambda>desc.
                         io_return (Value \<lparr>data = d, description = or_empty desc\<rparr>))
                  else io_return Undefined))
          else io_return Undefined)))
       (\<lambda>error. io_return Null)"

definition getDockerComposeYaml ::
  "('j, 'f) env \<Rightarrow> Config \<Rightarrow> string \<Rightarrow> ('f, string option FileContent) io" where
  "getDockerComposeYaml env cfg ident =
     io_bind (io_lift (getAppPaths cfg ident)) (\<lambda>ps.
     io_bind
       (if architecture cfg = ''arm64''
        then pathExists env (path_join [appInstalledDir ps, ''docker-compose.arm64.yml''])
        else io_return False)
       (\<lambda>arm64Exists.
          let dockerComposePath =
                (if architecture cfg = ''arm64'' \<and> arm64Exists
                 then path_join [appInstalledDir ps, ''docker-compose.arm64.yml'']
                 else path_join [appInstalledDir ps, ''docker-compose.yml''])
          in io_bind
               (io_catch
                  (io_bind (pathExists env dockerComposePath) (\<lambda>ex.
                     if ex then readTextFile env dockerComposePath else io_return None))
                  (\<lambda>error.
                     io_bind
                       (logger Level_error
                          (''Error getting docker-compose.yml for installed app '' @ ident
                             @ '': '' @ exn_text error) None)
                       (\<lambda>u. io_return None)))
               (\<lambda>c. io_return \<lparr>path = dockerComposePath, content = c\<rparr>)))"

definition getDockerComposeJson ::
  "('j, 'f) env \<Rightarrow> Config \<Rightarrow> string \<Rightarrow> ('f, 'j option FileContent) io" where
  "getDockerComposeJson env cfg ident =
     io_bind (io_lift (getAppPaths cfg ident)) (\<lambda>ps.
       let dockerComposePath = path_join [appInstalledDir ps, ''docker-compose.json'']
       in io_bind
            (io_catch
               (io_bind (pathExists env dockerComposePath) (\<lambda>ex.
                  if ex then readJsonFile env dockerComposePath else io_return None))
               (\<lambda>error.
                  io_bind
                    (logger Level_error
                       (''Error getting docker-compose.json for installed app '' @ ident
                          @ '': '' @ exn_text error) None)
                    (\<lambda>u. io_return None)))
            (\<lambda>c. io_return \<lparr>path = dockerComposePath, content = c\<rparr>))"

definition writeDockerComposeYml ::
  "('j, 'f) env \<Rightarrow> Config \<Rightarrow> string \<Rightarrow> string \<Rightarrow> ('f, unit) io" where
  "writeDockerComposeYml env cfg appId composeFile =
     io_bind (io_lift (getAppPaths cfg appId)) (\<lambda>ps.
       writeTextFile env (path_join [appInstalledDir ps, ''docker-compose.yml'']) composeFile)"

definition deleteAppFolder :: "('j, 'f) env \<Rightarrow> Config \<Rightarrow> string \<Rightarrow> ('f, unit) io" where
  "deleteAppFolder env cfg appId =
     io_bind (io_lift (getAppPaths cfg appId)) (\<lambda>ps. removeDirectory env (appInstalledDir ps))"

definition deleteAppDataDir :: "('j, 'f) env \<Rightarrow> Config \<Rightarrow> string \<Rightarrow> ('f, unit) io" where
  "deleteAppDataDir env cfg appId =
     io_bind (io_lift (getAppPaths cfg appId)) (\<lambda>ps. removeDirectory env (appDataDir ps))"

definition createAppDataDir :: "('j, 'f) env \<Rightarrow> Config \<Rightarrow> string \<Rightarrow> ('f, unit) io" where
  "createAppDataDir env cfg appId =
     io_bind (io_lift (getAppPaths cfg appId)) (\<lambda>ps. createDirectory env (appDataDir ps))"

definition setAppDataDirPermissions ::
  "('j, 'f) env \<Rightarrow> Config \<Rightarrow> string \<Rightarrow> ('f, unit) io" where
  "setAppDataDirPermissions env cfg appId =
     io_bind (io_lift (getAppPaths cfg appId)) (\<lambda>ps.
       io_catch (execAsync env (''chmod -Rf a+rwx '' @ appDataDir ps))
         (\<lambda>error. logger Level_error (''Error setting permissions for app '' @ appId) None))"

definition getAppEnv ::
  "('j, 'f) env \<Rightarrow> Config \<Rightarrow> string \<Rightarrow> ('f, string FileContent) io" where
  "getAppEnv env cfg appId =
     io_bind (io_lift (getAppPaths cfg appId)) (\<lambda>ps.
       let envPath = path_join [appDataDir ps, ''app.env'']
       in io_bind (pathExists env envPath) (\<lambda>ex.
          io_bind
            (if ex then io_bind (readTextFile env envPath) (\<lambda>t. io_return (or_empty t))
             else io_return [])
            (\<lambda>e. io_return \<lparr>path = envPath, content = e\<rparr>)))"

definition writeAppEnv ::
  "('j, 'f) env \<Rightarrow> Config \<Rightarrow> string \<Rightarrow> string \<Rightarrow> ('f, unit) io" where
  "writeAppEnv env cfg appId e =
     io_bind (io_lift (getAppPaths cfg appId)) (\<lambda>ps.
       writeTextFile env (path_join [appDataDir ps, ''app.env'']) e)"

definition getUserEnv ::
  "('j, 'f) env \<Rightarrow> Config \<Rightarrow> string \<Rightarrow> ('f, string option FileContent) io" where
  "getUserEnv env cfg appId =
     (let userEnvFile = path_join [dataDir (directories cfg), ''user-config'', appId, ''app.env'']
      in io_bind (pathExists env userEnvFile) (\<lambda>ex.
         io_bind (if ex then readTextFile env userEnvFile else io_return None)
           (\<lambda>c. io_return \<lparr>path = userEnvFile, content = c\<rparr>)))"

definition getUserComposeFile ::
  "('j, 'f) env \<Rightarrow> Config \<Rightarrow> string \<Rightarrow> ('f, string option FileContent) io" where
  "getUserComposeFile env cfg appId =
     (let userComposeFile =
            path_join [dataDir (directories cfg), ''user-config'', appId, ''docker-compose.yml'']
      in io_bind (pathExists env userComposeFile) (\<lambda>ex.
         io_bind (if ex then readTextFile env userComposeFile else io_return None)
           (\<lambda>c. io_return \<lparr>path = userComposeFile, content = c\<rparr>)))"

section \<open>Backend: UninstallAppCommand\<close>

record CommandResult =
  success :: bool
  message :: string

text \<open>
  \<^verbatim>\<open>execute\<close> of the uninstall command. The rejection of \<^verbatim>\<open>composeApp\<close> is caught on the
  spot and logged as a warning; every other error reaches the \<^verbatim>\<open>catch\<close> of the whole body
  and goes to \<^verbatim>\<open>handleAppError\<close>, a method of the base class, which is a parameter here.
\<close>

definition uninstall_warning :: "string \<Rightarrow> string" where
  "uninstall_warning appId =
     ''Could not fully uninstall app '' @ appId
       @ ''. Some images may be in use by other apps or a folder has been deleted. ''
       @ ''Consider cleaning unused images docker system prune -a''"

definition UninstallAppCommand_execute ::
  "(exn \<Rightarrow> string \<Rightarrow> string \<Rightarrow> ('f, CommandResult) io) \<Rightarrow>
   ('j, 'f) env \<Rightarrow> Config \<Rightarrow> string \<Rightarrow> 'f \<Rightarrow> ('f, CommandResult) io" where
  "UninstallAppCommand_execute handleError env cfg appId f =
     io_catch
       (io_bind (logger Level_info (''Uninstalling app '' @ appId) None) (\<lambda>u.
        io_bind (ensureAppDir env appId f) (\<lambda>u.
        io_bind
          (io_catch (composeApp env appId ''down --remove-orphans --volumes --rmi all'')
             (\<lambda>err. logger Level_warn (uninstall_warning appId) (Some err)))
          (\<lambda>u.
        io_bind (deleteAppFolder env cfg appId) (\<lambda>u.
        io_bind (deleteAppDataDir env cfg appId) (\<lambda>u.
        io_bind (logger Level_info (''App '' @ appId @ '' uninstalled'') None) (\<lambda>u.
        io_return
          \<lparr>success = True,
           message = ''App '' @ appId @ '' uninstalled successfully''\<rparr>)))))))
       (\<lambda>err. handleError err appId ''uninstall'')"

text \<open>
  Modelled from the spec: \<^verbatim>\<open>handleAppError\<close> is a method of the base class
  \<^verbatim>\<open>AppLifecycleCommand\<close>, which is not among the sources. By sections 6 and 7 of the
  specification an error becomes a result that reports failure, with the error's message
  as payload.
\<close>

definition handleAppError :: "exn \<Rightarrow> string \<Rightarrow> string \<Rightarrow> ('f, CommandResult) io" where
  "handleAppError err appId cmd = io_return \<lparr>success = False, message = exn_message err\<rparr>"

subsection \<open>Example configuration and environments\<close>

definition cfg_arm :: Config where
  "cfg_arm =
     \<lparr>directories = \<lparr>dataDir = ''/data'', appDataDir_root = ''/app-data''\<rparr>,
      architecture = ''arm64''\<rparr>"

text \<open>An environment with an empty disk on which every call succeeds.\<close>

definition env_ok :: "(string, unit) env" where
  "env_ok =
     \<lparr>fs_pathExists = (\<lambda>h p. Inr False),
      fs_readTextFile = (\<lambda>h p. Inr None),
      fs_readJsonFile = (\<lambda>h p. Inr None),
      fs_writeTextFile = (\<lambda>h p s. Inr ()),
      fs_removeDirectory = (\<lambda>h p. Inr ()),
      fs_createDirectory = (\<lambda>h p. Inr ()),
      exec_execAsync = (\<lambda>h c. Inr ()),
      docker_composeApp = (\<lambda>h a c. Inr ()),
      base_ensureAppDir = (\<lambda>h a f. Inr ()),
      JSON_parse = (\<lambda>s. Inr s),
      appInfoSchema_safeParse = (\<lambda>j. Inr j),
      available = (\<lambda>j. True)\<rparr>"

definition env_engine_down :: "(string, unit) env" where
  "env_engine_down = env_ok\<lparr>docker_composeApp := (\<lambda>h a c. Inl (Error ''exit 1''))\<rparr>"

definition env_readonly :: "(string, unit) env" where
  "env_readonly = env_ok\<lparr>fs_removeDirectory := (\<lambda>h p. Inl (Error ''EACCES''))\<rparr>"

definition env_disk_error :: "(string, unit) env" where
  "env_disk_error = env_ok\<lparr>fs_pathExists := (\<lambda>h p. Inl (Error ''EIO''))\<rparr>"

definition env_arm_file :: "(string, unit) env" where
  "env_arm_file =
     env_ok\<lparr>fs_pathExists :=
              (\<lambda>h p. Inr (p = ''/data/apps/store/app/docker-compose.arm64.yml'')),
            fs_readTextFile := (\<lambda>h p. Inr (Some ''services: {}''))\<rparr>"

section \<open>Notions used by the properties\<close>

text \<open>
  An app id "splits on the first underscore into two non-empty parts": there is an
  underscore, the text before the first one is the store, the text after it is the id,
  and neither is empty.
\<close>

definition first_underscore_split :: "string \<Rightarrow> (string \<times> string) option" where
  "first_underscore_split s =
     (case dropWhile (\<lambda>x. x \<noteq> CHR ''_'') s of
        [] \<Rightarrow> None
      | u # rest \<Rightarrow> Some (takeWhile (\<lambda>x. x \<noteq> CHR ''_'') s, rest))"

definition splits_in_two :: "string \<Rightarrow> bool" where
  "splits_in_two s =
     (case first_underscore_split s of
        None \<Rightarrow> False
      | Some (store, rest) \<Rightarrow> store \<noteq> [] \<and> rest \<noteq> [])"

text \<open>A file name that \<^verbatim>\<open>path.join\<close> keeps as the last segment of its result.\<close>

definition plain_name :: "string \<Rightarrow> bool" where
  "plain_name n = (n \<noteq> [] \<and> n \<noteq> ''.'' \<and> n \<noteq> ''..'' \<and> CHR ''/'' \<notin> set n)"

text \<open>
  The paths resolved from the configuration and an app id: the two directories of
  \<^verbatim>\<open>getAppPaths\<close> and the files the manager names under them, when the id is well formed,
  and the two files of the app under the user-config directory.
\<close>

definition app_paths :: "Config \<Rightarrow> string \<Rightarrow> string list" where
  "app_paths cfg appId =
     (case getAppPaths cfg appId of
        Inl e \<Rightarrow> []
      | Inr ps \<Rightarrow>
          [appInstalledDir ps,
           appDataDir ps,
           path_join [appInstalledDir ps, ''config.json''],
           path_join [appInstalledDir ps, ''metadata'', ''description.md''],
           path_join [appInstalledDir ps, ''docker-compose.yml''],
           path_join [appInstalledDir ps, ''docker-compose.arm64.yml''],
           path_join [appInstalledDir ps, ''docker-compose.json''],
           path_join [appDataDir ps, ''app.env'']])
     @ [path_join [dataDir (directories cfg), ''user-config'', appId, ''app.env''],
        path_join [dataDir (directories cfg), ''user-config'', appId, ''docker-compose.yml'']]"

text \<open>
  A call is addressed by a list of paths when the path it reads, writes, creates or
  removes is in the list; for \<^verbatim>\<open>execAsync\<close>, when it is the \<^verbatim>\<open>chmod\<close> of one of them.
  The logger touches no path. The manager calls neither the docker service nor
  \<^verbatim>\<open>ensureAppDir\<close>.
\<close>

fun addressed :: "string list \<Rightarrow> 'f call \<Rightarrow> bool" where
  "addressed ps (PathExists p) = (p \<in> set ps)"
| "addressed ps (ReadTextFile p) = (p \<in> set ps)"
| "addressed ps (ReadJsonFile p) = (p \<in> set ps)"
| "addressed ps (WriteTextFile p s) = (p \<in> set ps)"
| "addressed ps (RemoveDirectory p) = (p \<in> set ps)"
| "addressed ps (CreateDirectory p) = (p \<in> set ps)"
| "addressed ps (ExecAsync cmd) = (cmd \<in> set (map (\<lambda>p. ''chmod -Rf a+rwx '' @ p) ps))"
| "addressed ps (Logger l m e) = True"
| "addressed ps (ComposeApp a c) = False"
| "addressed ps (EnsureAppDir a f) = False"

fun touched :: "'f call \<Rightarrow> string list" where
  "touched (PathExists p) = [p]"
| "touched (ReadTextFile p) = [p]"
| "touched (ReadJsonFile p) = [p]"
| "touched (WriteTextFile p s) = [p]"
| "touched (RemoveDirectory p) = [p]"
| "touched (CreateDirectory p) = [p]"
| "touched c = []"

text \<open>A computation that only adds calls satisfying \<open>P\<close>, whatever was called before.\<close>

definition only_calls :: "('f call \<Rightarrow> bool) \<Rightarrow> ('f, 'a) io \<Rightarrow> bool" where
  "only_calls P m = (\<forall>h. \<exists>cs. snd (m h) = h @ cs \<and> list_all P cs)"

text \<open>
  The calls made when uninstall has passed its \<^verbatim>\<open>composeApp\<close> step, \<^verbatim>\<open>ensureAppDir\<close>
  having succeeded: with the warning when the engine failed, without it otherwise.
\<close>

definition calls_through_compose ::
  "('j, 'f) env \<Rightarrow> string \<Rightarrow> 'f \<Rightarrow> 'f call list \<Rightarrow> 'f call list" where
  "calls_through_compose env appId f h =
     (let h2 = h @ [Logger Level_info (''Uninstalling app '' @ appId) None, EnsureAppDir appId f]
      in case docker_composeApp env h2 appId ''down --remove-orphans --volumes --rmi all'' of
           Inl err \<Rightarrow>
             h2 @ [ComposeApp appId ''down --remove-orphans --volumes --rmi all'',
                   Logger Level_warn (uninstall_warning appId) (Some err)]
         | Inr u \<Rightarrow> h2 @ [ComposeApp appId ''down --remove-orphans --volumes --rmi all''])"

section \<open>Properties of the restart command\<close>

lemma apply_status_patch: "apply_patch (status_patch st) a = a\<lparr>status := st\<rparr>"
  by (simp add: apply_patch_def status_patch_def)

lemma updateApp_found:
  "appTable w appId = Some a \<Longrightarrow>
   snd (updateApp appId (status_patch st) w) =
     w\<lparr>appTable := (appTable w)(appId \<mapsto> a\<lparr>status := st\<rparr>),
       effects := effects w @ [UpdateApp appId (status_patch st)]\<rparr>"
  by (simp add: updateApp_def apply_status_patch)

lemma execute_found:
  "appTable w appId = Some a \<Longrightarrow>
   RestartAppCommand_execute cast appId w =
     (Inr (),
      w\<lparr>appTable := (appTable w)(appId \<mapsto> a\<lparr>status := Restarting\<rparr>),
        effects := effects w @
          [UpdateApp appId (status_patch Restarting),
           DispatchEventAsync (restart_event appId (cast (config a)))]\<rparr>)"
  by (simp add: RestartAppCommand_execute_def getApp_def updateApp_found sendEvent_begin_def)

lemma resume_found:
  "appTable w appId = Some a \<Longrightarrow>
   sendEvent_resume appId (Inr r) w =
     (Inr (),
      w\<lparr>appTable :=
          (appTable w)(appId \<mapsto> a\<lparr>status := (if success_ev r then Running else Stopped)\<rparr>),
        effects := effects w @
          (if success_ev r then [UpdateApp appId (status_patch Running)]
           else [LoggerError (restart_failure_message appId (stdout_ev r)),
                 UpdateApp appId (status_patch Stopped)])\<rparr>)"
  by (simp add: sendEvent_resume_def updateApp_found)

text \<open>
  C1, as stated, fails. The app \<^verbatim>\<open>blog\<close> is \<^verbatim>\<open>installing\<close>, which is neither
  \<^verbatim>\<open>running\<close> nor \<^verbatim>\<open>stopped\<close>; the restart request is accepted all the same, the status
  is overwritten with \<^verbatim>\<open>restarting\<close> and a restart event goes to the dispatcher.
\<close>

theorem restart_no_precheck_counterexample:
  "status_of w_installing ''blog'' = Some Installing
   \<and> Installing \<noteq> Running \<and> Installing \<noteq> Stopped
   \<and> fst (RestartAppCommand_execute id ''blog'' w_installing) = Inr ()
   \<and> status_of (snd (RestartAppCommand_execute id ''blog'' w_installing)) ''blog''
       = Some Restarting
   \<and> effects (snd (RestartAppCommand_execute id ''blog'' w_installing)) =
       [UpdateApp ''blog'' (status_patch Restarting),
        DispatchEventAsync (restart_event ''blog'' ())]"
  by (simp add: w_installing_def status_of_def RestartAppCommand_execute_def getApp_def
      updateApp_def sendEvent_begin_def apply_status_patch)

text \<open>
  C1, amended: the restart command has no status precheck. For every app record in the
  store, whatever its current status, a restart request is accepted: the status is
  overwritten with \<^verbatim>\<open>restarting\<close> and exactly one restart event, carrying the cast
  configuration, is handed to the dispatcher.
\<close>

theorem restart_accepts_any_status:
  "getApp appId w = Some app \<Longrightarrow>
   fst (RestartAppCommand_execute cast appId w) = Inr ()
   \<and> status_of (snd (RestartAppCommand_execute cast appId w)) appId = Some Restarting
   \<and> effects (snd (RestartAppCommand_execute cast appId w)) =
       effects w @ [UpdateApp appId (status_patch Restarting),
                    DispatchEventAsync (restart_event appId (cast (config app)))]"
  by (simp add: getApp_def execute_found status_of_def)

theorem restart_accepts_any_status_witness:
  "getApp ''blog'' w_installing = Some \<lparr>status = Installing, config = ()\<rparr>
   \<and> fst (RestartAppCommand_execute id ''blog'' w_installing) = Inr ()
   \<and> status_of (snd (RestartAppCommand_execute id ''blog'' w_installing)) ''blog''
       = Some Restarting"
proof -
  have h: "getApp ''blog'' w_installing = Some \<lparr>status = Installing, config = ()\<rparr>"
    by (simp add: getApp_def w_installing_def)
  from restart_accepts_any_status [OF h, of id] h show ?thesis by simp
qed

text \<open>
  C2: when \<^verbatim>\<open>sendEvent\<close> resumes with what the dispatcher reported, on a store that
  holds the app, it returns normally (the engine failure is not thrown), and the status
  is \<^verbatim>\<open>running\<close> after a reported success and \<^verbatim>\<open>stopped\<close> after a reported failure, never
  \<^verbatim>\<open>restarting\<close>. On failure the line
  \<^verbatim>\<open>Failed to restart app <id>: <stdout>\<close> is logged before the status is written. The
  same holds for the whole restart, from \<^verbatim>\<open>execute\<close> on.
\<close>

theorem restart_finalize_terminal:
  "appTable w appId = Some app \<Longrightarrow>
   fst (sendEvent_resume appId (Inr r) w) = Inr ()
   \<and> status_of (snd (sendEvent_resume appId (Inr r) w)) appId =
       Some (if success_ev r then Running else Stopped)
   \<and> status_of (snd (sendEvent_resume appId (Inr r) w)) appId \<noteq> Some Restarting
   \<and> (\<not> success_ev r \<longrightarrow>
        effects (snd (sendEvent_resume appId (Inr r) w)) =
          effects w @ [LoggerError (restart_failure_message appId (stdout_ev r)),
                       UpdateApp appId (status_patch Stopped)])
   \<and> status_of (restart_run cast appId (Inr r) w) appId =
       Some (if success_ev r then Running else Stopped)"
  by (simp add: resume_found status_of_def restart_run_def execute_found)

theorem restart_finalize_terminal_witness:
  "appTable w_running ''notes'' = Some \<lparr>status = Running, config = ()\<rparr>
   \<and> \<not> success_ev engine_failed
   \<and> fst (sendEvent_resume ''notes'' (Inr engine_failed) w_running) = Inr ()
   \<and> status_of (snd (sendEvent_resume ''notes'' (Inr engine_failed) w_running)) ''notes''
       = Some Stopped
   \<and> effects (snd (sendEvent_resume ''notes'' (Inr engine_failed) w_running)) =
       [LoggerError ''Failed to restart app notes: exit 1'',
        UpdateApp ''notes'' (status_patch Stopped)]
   \<and> status_of (restart_run id ''notes'' (Inr engine_failed) w_running) ''notes''
       = Some Stopped"
proof -
  have h: "appTable w_running ''notes'' = Some \<lparr>status = Running, config = ()\<rparr>"
    by (simp add: w_running_def)
  have f: "\<not> success_ev engine_failed"
    by (simp add: engine_failed_def)
  have e: "effects w_running = []"
    by (simp add: w_running_def)
  have m: "restart_failure_message ''notes'' (stdout_ev engine_failed)
             = ''Failed to restart app notes: exit 1''"
    by (simp add: restart_failure_message_def engine_failed_def)
  from restart_finalize_terminal [OF h, of engine_failed id] h f e m
  show ?thesis by simp
qed

text \<open>
  C3: for an app in the store, \<^verbatim>\<open>execute\<close> writes \<^verbatim>\<open>restarting\<close> and only then hands the
  event to the dispatcher; it returns without the engine's outcome, which is not among
  its arguments, so that the status at return is \<^verbatim>\<open>restarting\<close> whatever the outcome
  will be. The terminal status is written by the resumed \<^verbatim>\<open>sendEvent\<close>, after both.
\<close>

theorem restart_async_order:
  "appTable w appId = Some app \<Longrightarrow>
   (case RestartAppCommand_execute cast appId w of
      (res, w1) \<Rightarrow>
        res = Inr ()
        \<and> status_of w1 appId = Some Restarting
        \<and> effects w1 = effects w @
            [UpdateApp appId (status_patch Restarting),
             DispatchEventAsync (restart_event appId (cast (config app)))]
        \<and> (\<forall>outcome.
              restart_run cast appId outcome w = snd (sendEvent_resume appId outcome w1))
        \<and> (\<forall>r. effects (snd (sendEvent_resume appId (Inr r) w1)) =
              effects w1 @
                (if success_ev r then [UpdateApp appId (status_patch Running)]
                 else [LoggerError (restart_failure_message appId (stdout_ev r)),
                       UpdateApp appId (status_patch Stopped)])))"
  by (simp add: execute_found status_of_def restart_run_def resume_found)

theorem restart_async_order_witness:
  "appTable w_running ''notes'' = Some \<lparr>status = Running, config = ()\<rparr>
   \<and> fst (RestartAppCommand_execute id ''notes'' w_running) = Inr ()
   \<and> status_of (snd (RestartAppCommand_execute id ''notes'' w_running)) ''notes''
       = Some Restarting
   \<and> effects (restart_run id ''notes'' (Inr engine_failed) w_running) =
       [UpdateApp ''notes'' (status_patch Restarting),
        DispatchEventAsync (restart_event ''notes'' ()),
        LoggerError ''Failed to restart app notes: exit 1'',
        UpdateApp ''notes'' (status_patch Stopped)]"
proof -
  have h: "appTable w_running ''notes'' = Some \<lparr>status = Running, config = ()\<rparr>"
    by (simp add: w_running_def)
  have f: "\<not> success_ev engine_failed"
    by (simp add: engine_failed_def)
  have e: "effects w_running = []"
    by (simp add: w_running_def)
  have m: "restart_failure_message ''notes'' (stdout_ev engine_failed)
             = ''Failed to restart app notes: exit 1''"
    by (simp add: restart_failure_message_def engine_failed_def)
  from restart_async_order [OF h, of id] h f e m
  show ?thesis by (simp add: split_beta)
qed

text \<open>
  C4: when the store has no record for the app id, \<^verbatim>\<open>execute\<close> throws the translated
  error \<^verbatim>\<open>APP_ERROR_APP_NOT_FOUND\<close> for that id and the world is unchanged: no status
  write, no dispatch.
\<close>

theorem restart_not_found:
  "getApp appId w = None \<Longrightarrow>
   RestartAppCommand_execute cast appId w =
     (Inl (TranslatedError ''APP_ERROR_APP_NOT_FOUND'' appId), w)"
  by (simp add: RestartAppCommand_execute_def)

theorem restart_not_found_witness:
  "getApp ''ghost'' w_empty = None
   \<and> RestartAppCommand_execute id ''ghost'' w_empty =
       (Inl (TranslatedError ''APP_ERROR_APP_NOT_FOUND'' ''ghost''), w_empty)"
proof -
  have h: "getApp ''ghost'' w_empty = None"
    by (simp add: getApp_def w_empty_def)
  from restart_not_found [OF h, of id] h show ?thesis by simp
qed

section \<open>Properties of the backend\<close>

subsection \<open>Running asynchronous computations step by step\<close>

lemmas io_defs =
  io_bind_def io_return_def io_lift_def io_catch_def io_call_def logger_def
  pathExists_def readTextFile_def readJsonFile_def writeTextFile_def removeDirectory_def
  createDirectory_def execAsync_def composeApp_def ensureAppDir_def

lemmas fs_call_defs =
  pathExists_def readTextFile_def readJsonFile_def writeTextFile_def removeDirectory_def
  createDirectory_def execAsync_def

lemma io_bind_lift_Inr: "io_bind (io_lift (Inr x)) k h = k x h"
  by (simp add: io_bind_def io_lift_def)

lemma io_bind_lift_Inl: "io_bind (io_lift (Inl e)) k h = (Inl e, h)"
  by (simp add: io_bind_def io_lift_def)

lemma io_bind_return: "io_bind (io_return x) k h = k x h"
  by (simp add: io_bind_def io_return_def)

lemma io_bind_call:
  "io_bind (io_call c out) k h =
     (case out h of Inl e \<Rightarrow> (Inl e, h @ [c]) | Inr x \<Rightarrow> k x (h @ [c]))"
  by (simp add: io_bind_def io_call_def split: sum.splits)

lemma io_bind_logger: "io_bind (logger l m e) k h = k () (h @ [Logger l m e])"
  by (simp add: io_bind_def logger_def)

lemmas io_steps =
  io_bind_lift_Inr io_bind_lift_Inl io_bind_return io_bind_call io_bind_logger

subsection \<open>Paths\<close>

lemmas path_eval = path_join_def posix_normalize_def normalize_segment_def Let_def

lemma split_on_not_Nil: "split_on c s \<noteq> []"
  by (induction s) (auto split: list.splits)

lemma split_on_unfold:
  "split_on c s =
     takeWhile (\<lambda>x. x \<noteq> c) s #
       (case dropWhile (\<lambda>x. x \<noteq> c) s of [] \<Rightarrow> [] | u # rest \<Rightarrow> split_on c rest)"
  by (induction s) (auto split: list.splits)

lemma split_on_plain: "c \<notin> set n \<Longrightarrow> split_on c n = [n]"
  by (induction n) auto

lemma split_on_append: "c \<notin> set n \<Longrightarrow> split_on c (d @ c # n) = split_on c d @ [n]"
proof (induction d)
  case Nil
  then show ?case by (simp add: split_on_plain)
next
  case (Cons x d)
  then show ?case
    using split_on_not_Nil [of c d] by (cases "split_on c d") auto
qed

lemma join_with_snoc:
  "join_with sep (xs @ [n]) = (if xs = [] then n else join_with sep xs @ sep @ n)"
  by (induction sep xs rule: join_with.induct) auto

lemma normalize_segment_plain: "plain_name n \<Longrightarrow> normalize_segment a res n = n # res"
  by (simp add: normalize_segment_def plain_name_def)

lemma posix_normalize_plain:
  assumes p: "plain_name n"
  shows "posix_normalize n = n"
proof -
  from p have ne: "n \<noteq> []" and ns: "CHR ''/'' \<notin> set n"
    by (simp_all add: plain_name_def)
  from ne ns have h: "hd n \<noteq> CHR ''/''" and l: "last n \<noteq> CHR ''/''"
    by (metis hd_in_set, metis last_in_set)
  from p ns ne h l show ?thesis
    by (simp add: posix_normalize_def split_on_plain normalize_segment_plain)
qed

text \<open>Joining a directory and a plain file name puts the name after a prefix of its own.\<close>

lemma posix_normalize_dir_plain:
  assumes p: "plain_name n" and d: "d \<noteq> []"
  shows "posix_normalize (d @ CHR ''/'' # n) =
     (if hd d = CHR ''/'' then ''/'' else [])
       @ (let st = foldl (normalize_segment (hd d \<noteq> CHR ''/'')) [] (split_on CHR ''/'' d)
          in if st = [] then [] else join_with ''/'' (rev st) @ ''/'')
       @ n"
proof -
  from p have ne: "n \<noteq> []" and ns: "CHR ''/'' \<notin> set n"
    by (simp_all add: plain_name_def)
  from ne ns have l: "last n \<noteq> CHR ''/''"
    by (metis last_in_set)
  from d have hd: "hd (d @ CHR ''/'' # n) = hd d" by simp
  from ne have la: "last (d @ CHR ''/'' # n) = last n" by simp
  show ?thesis
    unfolding posix_normalize_def hd la
    using p ne l
    by (simp add: split_on_append [OF ns] normalize_segment_plain join_with_snoc Let_def)
qed

lemma path_join_dir_plain:
  "\<exists>pre. \<forall>m. plain_name m \<longrightarrow> path_join [d, m] = pre @ m"
proof (cases "d = []")
  case True
  have "\<And>m. plain_name m \<Longrightarrow> path_join [d, m] = [] @ m"
    using True by (simp add: path_join_def posix_normalize_plain plain_name_def)
  then show ?thesis by blast
next
  case False
  have "\<And>m. plain_name m \<Longrightarrow> path_join [d, m] =
      ((if hd d = CHR ''/'' then ''/'' else [])
       @ (let st = foldl (normalize_segment (hd d \<noteq> CHR ''/'')) [] (split_on CHR ''/'' d)
          in if st = [] then [] else join_with ''/'' (rev st) @ ''/'')) @ m"
    using False by (simp add: path_join_def posix_normalize_dir_plain plain_name_def)
  then show ?thesis by blast
qed

lemma path_join_plain_inj:
  assumes "plain_name n" and "plain_name m" and "path_join [d, n] = path_join [d, m]"
  shows "n = m"
proof -
  from path_join_dir_plain [of d] obtain pre where
    "\<forall>k. plain_name k \<longrightarrow> path_join [d, k] = pre @ k"
    by blast
  with assms show ?thesis by simp
qed

lemma compose_paths_distinct:
  "path_join [d, ''docker-compose.arm64.yml''] \<noteq> path_join [d, ''docker-compose.yml'']"
proof
  assume e: "path_join [d, ''docker-compose.arm64.yml''] = path_join [d, ''docker-compose.yml'']"
  have "plain_name ''docker-compose.arm64.yml''" and "plain_name ''docker-compose.yml''"
    by (simp_all add: plain_name_def)
  from path_join_plain_inj [OF this e] show False by simp
qed

lemma getAppPaths_store_app:
  "getAppPaths cfg_arm ''store_app'' =
     Inr \<lparr>appDataDir = ''/app-data/store/app'', appInstalledDir = ''/data/apps/store/app''\<rparr>"
  by (simp add: getAppPaths_def getInstalledAppsFolder_def cfg_arm_def path_eval)

lemma store_app_files:
  "path_join [''/data/apps/store/app'', ''docker-compose.arm64.yml'']
     = ''/data/apps/store/app/docker-compose.arm64.yml''"
  "path_join [''/data/apps/store/app'', ''docker-compose.yml'']
     = ''/data/apps/store/app/docker-compose.yml''"
  "path_join [''/app-data/store/app'', ''app.env''] = ''/app-data/store/app/app.env''"
  "path_join [''/data'', ''user-config'', ''store_app'', ''app.env'']
     = ''/data/user-config/store_app/app.env''"
  "path_join [''/data'', ''user-config'', ''store_app'', ''docker-compose.yml'']
     = ''/data/user-config/store_app/docker-compose.yml''"
  "path_join [''/data'', ''user-config'', ''foo'', ''app.env'']
     = ''/data/user-config/foo/app.env''"
  by (simp_all add: path_eval)

lemma getAppPaths_not_split:
  assumes "\<not> splits_in_two appId"
  shows "getAppPaths cfg appId = Inl (invalid_app_id appId)"
proof (cases "dropWhile (\<lambda>x. x \<noteq> CHR ''_'') appId")
  case Nil
  have "split_on CHR ''_'' appId = [takeWhile (\<lambda>x. x \<noteq> CHR ''_'') appId]"
    using split_on_unfold [of "CHR ''_''" appId] by (simp only: Nil list.case)
  then show ?thesis by (simp add: getAppPaths_def)
next
  case (Cons u rest)
  have s: "split_on CHR ''_'' appId =
      takeWhile (\<lambda>x. x \<noteq> CHR ''_'') appId # split_on CHR ''_'' rest"
    using split_on_unfold [of "CHR ''_''" appId] by (simp only: Cons list.case)
  from assms Cons have e: "takeWhile (\<lambda>x. x \<noteq> CHR ''_'') appId = [] \<or> rest = []"
    by (simp add: splits_in_two_def first_underscore_split_def)
  show ?thesis
  proof (cases "rest = []")
    case True
    with s show ?thesis by (simp add: getAppPaths_def)
  next
    case False
    with e have st: "takeWhile (\<lambda>x. x \<noteq> CHR ''_'') appId = []" by simp
    obtain a as where "split_on CHR ''_'' rest = a # as"
      using split_on_not_Nil [of "CHR ''_''" rest] by (cases "split_on CHR ''_'' rest") auto
    with s st show ?thesis by (simp add: getAppPaths_def)
  qed
qed

subsection \<open>Uninstall\<close>

lemma deleteAppFolder_valid:
  "getAppPaths cfg appId = Inr ps \<Longrightarrow>
   deleteAppFolder env cfg appId h =
     (fs_removeDirectory env h (appInstalledDir ps), h @ [RemoveDirectory (appInstalledDir ps)])"
  by (simp add: deleteAppFolder_def io_defs)

lemma deleteAppDataDir_valid:
  "getAppPaths cfg appId = Inr ps \<Longrightarrow>
   deleteAppDataDir env cfg appId h =
     (fs_removeDirectory env h (appDataDir ps), h @ [RemoveDirectory (appDataDir ps)])"
  by (simp add: deleteAppDataDir_def io_defs)

text \<open>The rest of uninstall, once \<^verbatim>\<open>ensureAppDir\<close> has succeeded and the engine was called.\<close>

lemma uninstall_unfold:
  assumes "base_ensureAppDir env (h @ [Logger Level_info (''Uninstalling app '' @ appId) None])
             appId f = Inr ()"
  shows "UninstallAppCommand_execute handleError env cfg appId f h =
     io_catch
       (io_bind (deleteAppFolder env cfg appId) (\<lambda>u.
        io_bind (deleteAppDataDir env cfg appId) (\<lambda>u.
        io_bind (logger Level_info (''App '' @ appId @ '' uninstalled'') None) (\<lambda>u.
        io_return
          \<lparr>success = True,
           message = ''App '' @ appId @ '' uninstalled successfully''\<rparr>))))
       (\<lambda>err. handleError err appId ''uninstall'')
       (calls_through_compose env appId f h)"
  using assms
  by (simp add: UninstallAppCommand_execute_def calls_through_compose_def
      io_bind_def io_catch_def io_call_def logger_def composeApp_def ensureAppDir_def Let_def
      split: sum.splits)

text \<open>
  C5: take an app with a well-formed id for which \<^verbatim>\<open>ensureAppDir\<close> succeeds. When the
  engine's \<^verbatim>\<open>down --remove-orphans --volumes --rmi all\<close> fails, the failure is logged as
  a warning and nothing else: both directories are then removed, and if the filesystem
  removes them, uninstall logs the completion and returns success. The record itself is
  removed by the caller of the command, on this result.
\<close>

theorem uninstall_engine_failure_tolerated:
  assumes "getAppPaths cfg appId = Inr ps"
    and "base_ensureAppDir env (h @ [Logger Level_info (''Uninstalling app '' @ appId) None])
           appId f = Inr ()"
    and "docker_composeApp env
           (h @ [Logger Level_info (''Uninstalling app '' @ appId) None, EnsureAppDir appId f])
           appId ''down --remove-orphans --volumes --rmi all'' = Inl err"
    and "hc = h @ [Logger Level_info (''Uninstalling app '' @ appId) None,
                   EnsureAppDir appId f,
                   ComposeApp appId ''down --remove-orphans --volumes --rmi all'',
                   Logger Level_warn (uninstall_warning appId) (Some err)]"
    and "fs_removeDirectory env hc (appInstalledDir ps) = Inr ()"
    and "fs_removeDirectory env (hc @ [RemoveDirectory (appInstalledDir ps)]) (appDataDir ps)
           = Inr ()"
  shows "UninstallAppCommand_execute handleError env cfg appId f h =
     (Inr \<lparr>success = True, message = ''App '' @ appId @ '' uninstalled successfully''\<rparr>,
      hc @ [RemoveDirectory (appInstalledDir ps), RemoveDirectory (appDataDir ps),
            Logger Level_info (''App '' @ appId @ '' uninstalled'') None])"
proof -
  have c: "calls_through_compose env appId f h = hc"
    using assms(3,4) by (simp add: calls_through_compose_def)
  show ?thesis
    unfolding uninstall_unfold [OF assms(2)] c
    using assms(5,6)
    by (simp add: io_bind_def io_catch_def io_return_def logger_def
        deleteAppFolder_valid [OF assms(1)] deleteAppDataDir_valid [OF assms(1)])
qed

theorem uninstall_engine_failure_tolerated_witness:
  "UninstallAppCommand_execute handleAppError env_engine_down cfg_arm ''store_app'' () [] =
     (Inr \<lparr>success = True, message = ''App store_app uninstalled successfully''\<rparr>,
      [Logger Level_info ''Uninstalling app store_app'' None,
       EnsureAppDir ''store_app'' (),
       ComposeApp ''store_app'' ''down --remove-orphans --volumes --rmi all'',
       Logger Level_warn (uninstall_warning ''store_app'') (Some (Error ''exit 1'')),
       RemoveDirectory ''/data/apps/store/app'',
       RemoveDirectory ''/app-data/store/app'',
       Logger Level_info ''App store_app uninstalled'' None])"
proof -
  have e: "base_ensureAppDir env_engine_down
             ([] @ [Logger Level_info (''Uninstalling app '' @ ''store_app'') None])
             ''store_app'' () = Inr ()"
    by (simp add: env_engine_down_def env_ok_def)
  have d: "docker_composeApp env_engine_down
             ([] @ [Logger Level_info (''Uninstalling app '' @ ''store_app'') None,
                    EnsureAppDir ''store_app'' ()])
             ''store_app'' ''down --remove-orphans --volumes --rmi all'' = Inl (Error ''exit 1'')"
    by (simp add: env_engine_down_def env_ok_def)
  have r: "\<And>hh p. fs_removeDirectory env_engine_down hh p = Inr ()"
    by (simp add: env_engine_down_def env_ok_def)
  from uninstall_engine_failure_tolerated
         [OF getAppPaths_store_app e d refl r r, of handleAppError]
  show ?thesis by simp
qed

text \<open>
  C6: let \<^verbatim>\<open>ensureAppDir\<close> succeed, whatever the engine did. When deleting the app folder
  fails, or deleting the app data directory fails after the folder was deleted, uninstall
  does not reach its success result: it returns what the error handler makes of the error,
  for the command \<^verbatim>\<open>uninstall\<close>, and with the error handler of the specification that
  result reports failure. The record is removed by the caller of the command, on success.
\<close>

theorem uninstall_delete_failure:
  assumes "base_ensureAppDir env (h @ [Logger Level_info (''Uninstalling app '' @ appId) None])
             appId f = Inr ()"
    and "hc = calls_through_compose env appId f h"
    and "deleteAppFolder env cfg appId hc = (Inl err, hf)
         \<or> fst (deleteAppFolder env cfg appId hc) = Inr ()
           \<and> deleteAppDataDir env cfg appId (snd (deleteAppFolder env cfg appId hc))
               = (Inl err, hf)"
  shows "UninstallAppCommand_execute handleError env cfg appId f h
           = handleError err appId ''uninstall'' hf
         \<and> (case fst (UninstallAppCommand_execute handleAppError env cfg appId f h) of
              Inl e \<Rightarrow> False
            | Inr r \<Rightarrow> \<not> success r)"
proof -
  have g: "io_catch
       (io_bind (deleteAppFolder env cfg appId) (\<lambda>u.
        io_bind (deleteAppDataDir env cfg appId) (\<lambda>u.
        io_bind (logger Level_info (''App '' @ appId @ '' uninstalled'') None) (\<lambda>u.
        io_return
          \<lparr>success = True,
           message = ''App '' @ appId @ '' uninstalled successfully''\<rparr>))))
       (\<lambda>e. hdl e appId ''uninstall'') hc = hdl err appId ''uninstall'' hf" for hdl
    using assms(3)
    by (cases "deleteAppFolder env cfg appId hc") (auto simp add: io_bind_def io_catch_def)
  have a: "UninstallAppCommand_execute handleError env cfg appId f h
             = handleError err appId ''uninstall'' hf"
    unfolding uninstall_unfold [OF assms(1)] assms(2) [symmetric] by (rule g)
  have b: "UninstallAppCommand_execute handleAppError env cfg appId f h
             = handleAppError err appId ''uninstall'' hf"
    unfolding uninstall_unfold [OF assms(1)] assms(2) [symmetric] by (rule g)
  show ?thesis
    unfolding a b by (simp add: handleAppError_def io_return_def)
qed

theorem uninstall_delete_failure_witness:
  "UninstallAppCommand_execute handleAppError env_readonly cfg_arm ''store_app'' () [] =
     handleAppError (Error ''EACCES'') ''store_app'' ''uninstall''
       [Logger Level_info ''Uninstalling app store_app'' None,
        EnsureAppDir ''store_app'' (),
        ComposeApp ''store_app'' ''down --remove-orphans --volumes --rmi all'',
        RemoveDirectory ''/data/apps/store/app'']
   \<and> (case fst (UninstallAppCommand_execute handleAppError env_readonly cfg_arm
                   ''store_app'' () []) of
        Inl e \<Rightarrow> False
      | Inr r \<Rightarrow> \<not> success r)"
proof -
  have e: "base_ensureAppDir env_readonly
             ([] @ [Logger Level_info (''Uninstalling app '' @ ''store_app'') None])
             ''store_app'' () = Inr ()"
    by (simp add: env_readonly_def env_ok_def)
  have c: "calls_through_compose env_readonly ''store_app'' () [] =
     [Logger Level_info ''Uninstalling app store_app'' None,
      EnsureAppDir ''store_app'' (),
      ComposeApp ''store_app'' ''down --remove-orphans --volumes --rmi all'']"
    by (simp add: calls_through_compose_def env_readonly_def env_ok_def)
  have r: "\<And>hh p. fs_removeDirectory env_readonly hh p = Inl (Error ''EACCES'')"
    by (simp add: env_readonly_def env_ok_def)
  have d: "deleteAppFolder env_readonly cfg_arm ''store_app''
             [Logger Level_info ''Uninstalling app store_app'' None,
              EnsureAppDir ''store_app'' (),
              ComposeApp ''store_app'' ''down --remove-orphans --volumes --rmi all'']
           = (Inl (Error ''EACCES''),
              [Logger Level_info ''Uninstalling app store_app'' None,
               EnsureAppDir ''store_app'' (),
               ComposeApp ''store_app'' ''down --remove-orphans --volumes --rmi all'',
               RemoveDirectory ''/data/apps/store/app''])"
    by (simp add: deleteAppFolder_valid [OF getAppPaths_store_app] r)
  from uninstall_delete_failure [OF e c [symmetric] disjI1 [OF d], of handleAppError]
  show ?thesis by (simp add: handleAppError_def io_return_def)
qed

subsection \<open>The calls of the files manager\<close>

lemma only_calls_return: "only_calls P (io_return x)"
  by (simp add: only_calls_def io_return_def)

lemma only_calls_call: "P c \<Longrightarrow> only_calls P (io_call c out)"
  by (simp add: only_calls_def io_call_def)

lemma only_calls_logger: "P (Logger l m e) \<Longrightarrow> only_calls P (logger l m e)"
  by (simp add: only_calls_def logger_def)

lemma only_calls_bind:
  assumes "only_calls P m" and "\<And>x. only_calls P (k x)"
  shows "only_calls P (io_bind m k)"
  unfolding only_calls_def
proof
  fix h
  from assms(1) obtain cs where m: "snd (m h) = h @ cs" and c: "list_all P cs"
    unfolding only_calls_def by blast
  show "\<exists>ds. snd (io_bind m k h) = h @ ds \<and> list_all P ds"
  proof (cases "fst (m h)")
    case (Inl e)
    with m c show ?thesis
      by (cases "m h") (auto simp add: io_bind_def)
  next
    case (Inr x)
    from assms(2) [of x] obtain ds where
      "snd (k x (h @ cs)) = (h @ cs) @ ds" and "list_all P ds"
      unfolding only_calls_def by blast
    with Inr m c show ?thesis
      by (cases "m h") (auto simp add: io_bind_def)
  qed
qed

lemma only_calls_bind_lift:
  assumes "\<And>x. r = Inr x \<Longrightarrow> only_calls P (k x)"
  shows "only_calls P (io_bind (io_lift r) k)"
proof (cases r)
  case (Inl e)
  then show ?thesis by (simp add: only_calls_def io_bind_def io_lift_def)
next
  case (Inr x)
  from assms [OF Inr] have "only_calls P (k x)" .
  with Inr show ?thesis by (simp add: only_calls_def io_bind_def io_lift_def)
qed

lemma only_calls_catch:
  assumes "only_calls P m" and "\<And>e. only_calls P (handler e)"
  shows "only_calls P (io_catch m handler)"
  unfolding only_calls_def
proof
  fix h
  from assms(1) obtain cs where m: "snd (m h) = h @ cs" and c: "list_all P cs"
    unfolding only_calls_def by blast
  show "\<exists>ds. snd (io_catch m handler h) = h @ ds \<and> list_all P ds"
  proof (cases "fst (m h)")
    case (Inr x)
    with m c show ?thesis
      by (cases "m h") (auto simp add: io_catch_def)
  next
    case (Inl e)
    from assms(2) [of e] obtain ds where
      "snd (handler e (h @ cs)) = (h @ cs) @ ds" and "list_all P ds"
      unfolding only_calls_def by blast
    with Inl m c show ?thesis
      by (cases "m h") (auto simp add: io_catch_def)
  qed
qed

lemma only_calls_if:
  "(c \<Longrightarrow> only_calls P a) \<Longrightarrow> (\<not> c \<Longrightarrow> only_calls P b) \<Longrightarrow>
   only_calls P (if c then a else b)"
  by simp

lemma only_calls_case_sum:
  "(\<And>x. s = Inl x \<Longrightarrow> only_calls P (f x)) \<Longrightarrow>
   (\<And>y. s = Inr y \<Longrightarrow> only_calls P (g y)) \<Longrightarrow>
   only_calls P (case s of Inl x \<Rightarrow> f x | Inr y \<Rightarrow> g y)"
  by (cases s) simp_all

lemma only_calls_calls_of: "only_calls P m \<Longrightarrow> list_all P (calls_of m h)"
  by (auto simp add: only_calls_def calls_of_def dest: spec [of _ h])

lemmas only_calls_rules =
  only_calls_bind_lift only_calls_bind only_calls_catch only_calls_call only_calls_logger
  only_calls_return only_calls_if only_calls_case_sum

lemma addressed_getInstalledAppInfo:
  "list_all (addressed (app_paths cfg appId)) (calls_of (getInstalledAppInfo env cfg appId) h)"
  unfolding getInstalledAppInfo_def fs_call_defs
  by (intro only_calls_calls_of only_calls_rules) (simp_all add: app_paths_def)

lemma addressed_getDockerComposeYaml:
  "list_all (addressed (app_paths cfg appId)) (calls_of (getDockerComposeYaml env cfg appId) h)"
  unfolding getDockerComposeYaml_def fs_call_defs Let_def
  by (intro only_calls_calls_of only_calls_rules) (simp_all add: app_paths_def)

lemma addressed_getDockerComposeJson:
  "list_all (addressed (app_paths cfg appId)) (calls_of (getDockerComposeJson env cfg appId) h)"
  unfolding getDockerComposeJson_def fs_call_defs Let_def
  by (intro only_calls_calls_of only_calls_rules) (simp_all add: app_paths_def)

lemma addressed_writeDockerComposeYml:
  "list_all (addressed (app_paths cfg appId))
     (calls_of (writeDockerComposeYml env cfg appId composeFile) h)"
  unfolding writeDockerComposeYml_def fs_call_defs
  by (intro only_calls_calls_of only_calls_rules) (simp_all add: app_paths_def)

lemma addressed_deleteAppFolder:
  "list_all (addressed (app_paths cfg appId)) (calls_of (deleteAppFolder env cfg appId) h)"
  unfolding deleteAppFolder_def fs_call_defs
  by (intro only_calls_calls_of only_calls_rules) (simp_all add: app_paths_def)

lemma addressed_deleteAppDataDir:
  "list_all (addressed (app_paths cfg appId)) (calls_of (deleteAppDataDir env cfg appId) h)"
  unfolding deleteAppDataDir_def fs_call_defs
  by (intro only_calls_calls_of only_calls_rules) (simp_all add: app_paths_def)

lemma addressed_createAppDataDir:
  "list_all (addressed (app_paths cfg appId)) (calls_of (createAppDataDir env cfg appId) h)"
  unfolding createAppDataDir_def fs_call_defs
  by (intro only_calls_calls_of only_calls_rules) (simp_all add: app_paths_def)

lemma addressed_setAppDataDirPermissions:
  "list_all (addressed (app_paths cfg appId))
     (calls_of (setAppDataDirPermissions env cfg appId) h)"
  unfolding setAppDataDirPermissions_def fs_call_defs
  by (intro only_calls_calls_of only_calls_rules) (simp_all add: app_paths_def)

lemma addressed_getAppEnv:
  "list_all (addressed (app_paths cfg appId)) (calls_of (getAppEnv env cfg appId) h)"
  unfolding getAppEnv_def fs_call_defs Let_def
  by (intro only_calls_calls_of only_calls_rules) (simp_all add: app_paths_def)

lemma addressed_writeAppEnv:
  "list_all (addressed (app_paths cfg appId)) (calls_of (writeAppEnv env cfg appId e) h)"
  unfolding writeAppEnv_def fs_call_defs
  by (intro only_calls_calls_of only_calls_rules) (simp_all add: app_paths_def)

lemma addressed_getUserEnv:
  "list_all (addressed (app_paths cfg appId)) (calls_of (getUserEnv env cfg appId) h)"
  unfolding getUserEnv_def fs_call_defs Let_def
  by (intro only_calls_calls_of only_calls_rules) (simp_all add: app_paths_def)

lemma addressed_getUserComposeFile:
  "list_all (addressed (app_paths cfg appId)) (calls_of (getUserComposeFile env cfg appId) h)"
  unfolding getUserComposeFile_def fs_call_defs Let_def
  by (intro only_calls_calls_of only_calls_rules) (simp_all add: app_paths_def)

lemma touched_write_independent:
  "concat (map touched (calls_of (writeDockerComposeYml env cfg appId c1) h)) =
   concat (map touched (calls_of (writeDockerComposeYml env cfg appId c2) h))"
  "concat (map touched (calls_of (writeAppEnv env cfg appId c1) h)) =
   concat (map touched (calls_of (writeAppEnv env cfg appId c2) h))"
  by (cases "getAppPaths cfg appId";
      simp add: calls_of_def writeDockerComposeYml_def writeAppEnv_def io_defs)+

text \<open>
  C7: no operation of the files manager takes a path. Whatever the environment answers,
  whatever was called before and whatever content is passed, every path an operation
  reads, writes, creates, removes or changes the mode of is one of the paths resolved
  from the configuration and the app id, through \<^verbatim>\<open>getAppPaths\<close> or under the
  user-config directory; and the path a write touches does not depend on the content
  written. For a fixed configuration these paths are a function of the app id alone.
\<close>

theorem paths_resolved_from_app_id:
  "list_all (addressed (app_paths cfg appId)) (calls_of (getInstalledAppInfo env cfg appId) h)
   \<and> list_all (addressed (app_paths cfg appId))
       (calls_of (getDockerComposeYaml env cfg appId) h)
   \<and> list_all (addressed (app_paths cfg appId))
       (calls_of (getDockerComposeJson env cfg appId) h)
   \<and> list_all (addressed (app_paths cfg appId))
       (calls_of (writeDockerComposeYml env cfg appId composeFile) h)
   \<and> list_all (addressed (app_paths cfg appId)) (calls_of (deleteAppFolder env cfg appId) h)
   \<and> list_all (addressed (app_paths cfg appId)) (calls_of (deleteAppDataDir env cfg appId) h)
   \<and> list_all (addressed (app_paths cfg appId)) (calls_of (createAppDataDir env cfg appId) h)
   \<and> list_all (addressed (app_paths cfg appId))
       (calls_of (setAppDataDirPermissions env cfg appId) h)
   \<and> list_all (addressed (app_paths cfg appId)) (calls_of (getAppEnv env cfg appId) h)
   \<and> list_all (addressed (app_paths cfg appId)) (calls_of (writeAppEnv env cfg appId e) h)
   \<and> list_all (addressed (app_paths cfg appId)) (calls_of (getUserEnv env cfg appId) h)
   \<and> list_all (addressed (app_paths cfg appId))
       (calls_of (getUserComposeFile env cfg appId) h)
   \<and> concat (map touched (calls_of (writeDockerComposeYml env cfg appId composeFile) h)) =
       concat (map touched (calls_of (writeDockerComposeYml env cfg appId composeFile') h))
   \<and> concat (map touched (calls_of (writeAppEnv env cfg appId e) h)) =
       concat (map touched (calls_of (writeAppEnv env cfg appId e') h))"
  using touched_write_independent [of env cfg appId composeFile h composeFile']
    touched_write_independent [of env cfg appId e h e']
  by (simp only: addressed_getInstalledAppInfo addressed_getDockerComposeYaml
      addressed_getDockerComposeJson addressed_writeDockerComposeYml addressed_deleteAppFolder
      addressed_deleteAppDataDir addressed_createAppDataDir addressed_setAppDataDirPermissions
      addressed_getAppEnv addressed_writeAppEnv addressed_getUserEnv
      addressed_getUserComposeFile simp_thms)

theorem paths_resolved_from_app_id_witness:
  "calls_of (getDockerComposeYaml env_arm_file cfg_arm ''store_app'') [] =
     [PathExists ''/data/apps/store/app/docker-compose.arm64.yml'',
      PathExists ''/data/apps/store/app/docker-compose.arm64.yml'',
      ReadTextFile ''/data/apps/store/app/docker-compose.arm64.yml'']
   \<and> list_all (addressed (app_paths cfg_arm ''store_app''))
       [PathExists ''/data/apps/store/app/docker-compose.arm64.yml'',
        PathExists ''/data/apps/store/app/docker-compose.arm64.yml'',
        ReadTextFile ''/data/apps/store/app/docker-compose.arm64.yml'']"
proof -
  have a: "architecture cfg_arm = ''arm64''"
    by (simp add: cfg_arm_def)
  have x: "\<And>h p. fs_pathExists env_arm_file h p
             = Inr (p = ''/data/apps/store/app/docker-compose.arm64.yml'')"
    by (simp add: env_arm_file_def env_ok_def)
  have r: "\<And>h p. fs_readTextFile env_arm_file h p = Inr (Some ''services: {}'')"
    by (simp add: env_arm_file_def env_ok_def)
  have c: "calls_of (getDockerComposeYaml env_arm_file cfg_arm ''store_app'') [] =
     [PathExists ''/data/apps/store/app/docker-compose.arm64.yml'',
      PathExists ''/data/apps/store/app/docker-compose.arm64.yml'',
      ReadTextFile ''/data/apps/store/app/docker-compose.arm64.yml'']"
    by (simp add: calls_of_def getDockerComposeYaml_def getAppPaths_store_app store_app_files
        a io_defs x r Let_def)
  from paths_resolved_from_app_id [of cfg_arm "''store_app''" env_arm_file "[]"] c
  show ?thesis by simp
qed

subsection \<open>Ill-formed app ids\<close>

lemma getDockerComposeYaml_invalid:
  "getAppPaths cfg appId = Inl e \<Longrightarrow> getDockerComposeYaml env cfg appId h = (Inl e, h)"
  by (simp add: getDockerComposeYaml_def io_steps)

lemma getDockerComposeJson_invalid:
  "getAppPaths cfg appId = Inl e \<Longrightarrow> getDockerComposeJson env cfg appId h = (Inl e, h)"
  by (simp add: getDockerComposeJson_def io_steps)

lemma writeDockerComposeYml_invalid:
  "getAppPaths cfg appId = Inl e \<Longrightarrow> writeDockerComposeYml env cfg appId c h = (Inl e, h)"
  by (simp add: writeDockerComposeYml_def io_steps)

lemma deleteAppFolder_invalid:
  "getAppPaths cfg appId = Inl e \<Longrightarrow> deleteAppFolder env cfg appId h = (Inl e, h)"
  by (simp add: deleteAppFolder_def io_steps)

lemma deleteAppDataDir_invalid:
  "getAppPaths cfg appId = Inl e \<Longrightarrow> deleteAppDataDir env cfg appId h = (Inl e, h)"
  by (simp add: deleteAppDataDir_def io_steps)

lemma createAppDataDir_invalid:
  "getAppPaths cfg appId = Inl e \<Longrightarrow> createAppDataDir env cfg appId h = (Inl e, h)"
  by (simp add: createAppDataDir_def io_steps)

lemma setAppDataDirPermissions_invalid:
  "getAppPaths cfg appId = Inl e \<Longrightarrow> setAppDataDirPermissions env cfg appId h = (Inl e, h)"
  by (simp add: setAppDataDirPermissions_def io_steps)

lemma getAppEnv_invalid:
  "getAppPaths cfg appId = Inl e \<Longrightarrow> getAppEnv env cfg appId h = (Inl e, h)"
  by (simp add: getAppEnv_def io_steps)

lemma writeAppEnv_invalid:
  "getAppPaths cfg appId = Inl e \<Longrightarrow> writeAppEnv env cfg appId c h = (Inl e, h)"
  by (simp add: writeAppEnv_def io_steps)

lemma getInstalledAppInfo_invalid:
  "getAppPaths cfg appId = Inl e \<Longrightarrow> getInstalledAppInfo env cfg appId h = (Inr Null, h)"
  by (simp add: getInstalledAppInfo_def io_catch_def io_steps io_return_def)

text \<open>
  C8, as stated, fails. The id \<^verbatim>\<open>foo\<close> has no underscore and \<^verbatim>\<open>getAppPaths\<close> throws on
  it, but \<^verbatim>\<open>getUserEnv\<close>, which takes an app id, does not call \<^verbatim>\<open>getAppPaths\<close>: it asks the
  filesystem for \<^verbatim>\<open>/data/user-config/foo/app.env\<close> and returns normally.
\<close>

theorem invalid_id_user_env_counterexample:
  "\<not> splits_in_two ''foo''
   \<and> getAppPaths cfg_arm ''foo'' = Inl (Error ''Invalid namespaced app id: foo'')
   \<and> getUserEnv env_ok cfg_arm ''foo'' [] =
       (Inr \<lparr>path = ''/data/user-config/foo/app.env'', content = None\<rparr>,
        [PathExists ''/data/user-config/foo/app.env''])"
proof -
  have d: "dataDir (directories cfg_arm) = ''/data''"
    by (simp add: cfg_arm_def)
  have x: "\<And>h p. fs_pathExists env_ok h p = Inr False"
    by (simp add: env_ok_def)
  show ?thesis
    by (simp add: splits_in_two_def first_underscore_split_def getAppPaths_def
        invalid_app_id_def getUserEnv_def d store_app_files Let_def io_defs x)
qed

text \<open>
  C8, amended: for every app id that does not split on the first underscore into two
  non-empty parts, \<^verbatim>\<open>getAppPaths\<close> throws the invalid-namespaced-app-id error. Every
  operation of the files manager that resolves its paths through \<^verbatim>\<open>getAppPaths\<close> then
  throws that error before any call to a collaborator, except \<^verbatim>\<open>getInstalledAppInfo\<close>,
  which catches it and returns \<^verbatim>\<open>null\<close>, also before any call. (\<^verbatim>\<open>getUserEnv\<close> and
  \<^verbatim>\<open>getUserComposeFile\<close> do not use \<^verbatim>\<open>getAppPaths\<close> and are not among them.)
\<close>

theorem invalid_id_rejected:
  "\<not> splits_in_two appId \<Longrightarrow>
   getAppPaths cfg appId = Inl (invalid_app_id appId)
   \<and> getDockerComposeYaml env cfg appId h = (Inl (invalid_app_id appId), h)
   \<and> getDockerComposeJson env cfg appId h = (Inl (invalid_app_id appId), h)
   \<and> writeDockerComposeYml env cfg appId composeFile h = (Inl (invalid_app_id appId), h)
   \<and> deleteAppFolder env cfg appId h = (Inl (invalid_app_id appId), h)
   \<and> deleteAppDataDir env cfg appId h = (Inl (invalid_app_id appId), h)
   \<and> createAppDataDir env cfg appId h = (Inl (invalid_app_id appId), h)
   \<and> setAppDataDirPermissions env cfg appId h = (Inl (invalid_app_id appId), h)
   \<and> getAppEnv env cfg appId h = (Inl (invalid_app_id appId), h)
   \<and> writeAppEnv env cfg appId e h = (Inl (invalid_app_id appId), h)
   \<and> getInstalledAppInfo env cfg appId h = (Inr Null, h)"
  by (simp add: getAppPaths_not_split getDockerComposeYaml_invalid getDockerComposeJson_invalid
      writeDockerComposeYml_invalid deleteAppFolder_invalid deleteAppDataDir_invalid
      createAppDataDir_invalid setAppDataDirPermissions_invalid getAppEnv_invalid
      writeAppEnv_invalid getInstalledAppInfo_invalid)

theorem invalid_id_rejected_witness:
  "\<not> splits_in_two ''store_''
   \<and> getAppPaths cfg_arm ''store_'' = Inl (Error ''Invalid namespaced app id: store_'')
   \<and> deleteAppDataDir env_ok cfg_arm ''store_'' [] =
       (Inl (Error ''Invalid namespaced app id: store_''), [])
   \<and> getInstalledAppInfo env_ok cfg_arm ''store_'' [] = (Inr Null, [])"
proof -
  have h: "\<not> splits_in_two ''store_''"
    by (simp add: splits_in_two_def first_underscore_split_def)
  have m: "invalid_app_id ''store_'' = Error ''Invalid namespaced app id: store_''"
    by (simp add: invalid_app_id_def)
  from invalid_id_rejected [OF h, of cfg_arm env_ok "[]"] h m show ?thesis by simp
qed

subsection \<open>Reading the compose file and the env files\<close>

text \<open>The guarded read of \<^verbatim>\<open>getDockerComposeYaml\<close>: it never throws.\<close>

lemma guarded_read:
  "\<exists>c h'.
     io_catch
       (io_bind (pathExists env p) (\<lambda>ex. if ex then readTextFile env p else io_return None))
       (\<lambda>error. io_bind (logger Level_error (msg error) None) (\<lambda>u. io_return None)) h1
       = (Inr c, h')
     \<and> (fs_pathExists env h1 p \<noteq> Inr True \<longrightarrow> c = None)
     \<and> (\<forall>e. fs_readTextFile env (h1 @ [PathExists p]) p = Inl e \<longrightarrow> c = None)"
proof (cases "fs_pathExists env h1 p")
  case (Inl e)
  then show ?thesis by (simp add: io_defs)
next
  case (Inr b)
  show ?thesis
  proof (cases b)
    case False
    with Inr show ?thesis by (simp add: io_defs)
  next
    case True
    with Inr show ?thesis
      by (cases "fs_readTextFile env (h1 @ [PathExists p]) p") (simp_all add: io_defs)
  qed
qed

lemma compose_yaml_after_check:
  "\<exists>c h'.
     io_bind
       (io_catch
          (io_bind (pathExists env p) (\<lambda>ex. if ex then readTextFile env p else io_return None))
          (\<lambda>error. io_bind (logger Level_error (msg error) None) (\<lambda>u. io_return None)))
       (\<lambda>c. io_return \<lparr>path = p, content = c\<rparr>) h1
       = (Inr \<lparr>path = p, content = c\<rparr>, h')
     \<and> (fs_pathExists env h1 p \<noteq> Inr True \<longrightarrow> c = None)
     \<and> (\<forall>e. fs_readTextFile env (h1 @ [PathExists p]) p = Inl e \<longrightarrow> c = None)"
proof -
  from guarded_read [of env p msg h1] obtain c h' where
    g: "io_catch
       (io_bind (pathExists env p) (\<lambda>ex. if ex then readTextFile env p else io_return None))
       (\<lambda>error. io_bind (logger Level_error (msg error) None) (\<lambda>u. io_return None)) h1
       = (Inr c, h')"
    and "fs_pathExists env h1 p \<noteq> Inr True \<longrightarrow> c = None"
    and "\<forall>e. fs_readTextFile env (h1 @ [PathExists p]) p = Inl e \<longrightarrow> c = None"
    by blast
  moreover from g have "io_bind
       (io_catch
          (io_bind (pathExists env p) (\<lambda>ex. if ex then readTextFile env p else io_return None))
          (\<lambda>error. io_bind (logger Level_error (msg error) None) (\<lambda>u. io_return None)))
       (\<lambda>c. io_return \<lparr>path = p, content = c\<rparr>) h1
       = (Inr \<lparr>path = p, content = c\<rparr>, h')"
    by (simp add: io_bind_def io_return_def)
  ultimately show ?thesis by blast
qed

text \<open>
  The existence check of \<^verbatim>\<open>docker-compose.arm64.yml\<close>, made on arm64 to choose the
  path, is outside the \<^verbatim>\<open>try\<close> block: when the filesystem service rejects it, the
  operation throws while it computes the path.
\<close>

lemma compose_yaml_check_may_throw:
  "getDockerComposeYaml env_disk_error cfg_arm ''store_app'' [] =
     (Inl (Error ''EIO''), [PathExists ''/data/apps/store/app/docker-compose.arm64.yml''])"
proof -
  have a: "architecture cfg_arm = ''arm64''"
    by (simp add: cfg_arm_def)
  have x: "\<And>h p. fs_pathExists env_disk_error h p = Inl (Error ''EIO'')"
    by (simp add: env_disk_error_def env_ok_def)
  show ?thesis
    by (simp add: getAppPaths_store_app getDockerComposeYaml_def store_app_files a
        pathExists_def io_steps x)
qed

text \<open>
  C9: the path is computed from \<^verbatim>\<open>getAppPaths\<close> and, on arm64, from the existence check
  of \<^verbatim>\<open>docker-compose.arm64.yml\<close>. Once both have returned, \<^verbatim>\<open>getDockerComposeYaml\<close>
  returns normally, whatever the filesystem does afterwards. Its path is that of
  \<^verbatim>\<open>docker-compose.arm64.yml\<close> exactly when the architecture is arm64 and that file was
  found to exist, and that of \<^verbatim>\<open>docker-compose.yml\<close>, a different path, otherwise. Its
  content is \<^verbatim>\<open>null\<close> whenever the chosen file is not reported to exist and whenever
  reading it throws.
\<close>

theorem compose_yaml_choice:
  assumes "getAppPaths cfg ident = Inr ps"
    and "architecture cfg = ''arm64'' \<longrightarrow>
         fs_pathExists env h (path_join [appInstalledDir ps, ''docker-compose.arm64.yml''])
           = Inr b"
  shows
    "let arm = path_join [appInstalledDir ps, ''docker-compose.arm64.yml''];
         yml = path_join [appInstalledDir ps, ''docker-compose.yml''];
         chosen = (if architecture cfg = ''arm64'' \<and> b then arm else yml);
         h1 = (if architecture cfg = ''arm64'' then h @ [PathExists arm] else h)
     in arm \<noteq> yml
        \<and> (case fst (getDockerComposeYaml env cfg ident h) of
             Inl e \<Rightarrow> False
           | Inr r \<Rightarrow>
               path r = chosen
               \<and> (fs_pathExists env h1 chosen \<noteq> Inr True \<longrightarrow> content r = None)
               \<and> (\<forall>e. fs_readTextFile env (h1 @ [PathExists chosen]) chosen = Inl e
                      \<longrightarrow> content r = None))"
proof -
  define arm where "arm = path_join [appInstalledDir ps, ''docker-compose.arm64.yml'']"
  define yml where "yml = path_join [appInstalledDir ps, ''docker-compose.yml'']"
  define chosen where "chosen = (if architecture cfg = ''arm64'' \<and> b then arm else yml)"
  define h1 where "h1 = (if architecture cfg = ''arm64'' then h @ [PathExists arm] else h)"
  define msg where "msg = (\<lambda>error. ''Error getting docker-compose.yml for installed app ''
      @ ident @ '': '' @ exn_text error)"
  have d: "arm \<noteq> yml"
    unfolding arm_def yml_def by (rule compose_paths_distinct)
  have step: "getDockerComposeYaml env cfg ident h =
      io_bind
       (io_catch
          (io_bind (pathExists env chosen)
             (\<lambda>ex. if ex then readTextFile env chosen else io_return None))
          (\<lambda>error. io_bind (logger Level_error (msg error) None) (\<lambda>u. io_return None)))
       (\<lambda>c. io_return \<lparr>path = chosen, content = c\<rparr>) h1"
  proof (cases "architecture cfg = ''arm64''")
    case True
    with assms(2) have "fs_pathExists env h arm = Inr b"
      by (simp add: arm_def)
    with True assms(1) show ?thesis
      unfolding getDockerComposeYaml_def chosen_def h1_def msg_def arm_def yml_def
      by (simp add: io_steps Let_def
          pathExists_def [of env "path_join [appInstalledDir ps, ''docker-compose.arm64.yml'']"])
  next
    case False
    with assms(1) show ?thesis
      unfolding getDockerComposeYaml_def chosen_def h1_def msg_def arm_def yml_def
      by (simp add: io_steps Let_def)
  qed
  from compose_yaml_after_check [of env chosen msg h1] obtain c h' where
    "getDockerComposeYaml env cfg ident h = (Inr \<lparr>path = chosen, content = c\<rparr>, h')"
    and "fs_pathExists env h1 chosen \<noteq> Inr True \<longrightarrow> c = None"
    and "\<forall>e. fs_readTextFile env (h1 @ [PathExists chosen]) chosen = Inl e \<longrightarrow> c = None"
    unfolding step by blast
  with d show ?thesis
    unfolding Let_def arm_def [symmetric] yml_def [symmetric]
    unfolding chosen_def [symmetric] h1_def [symmetric]
    by simp
qed

theorem compose_yaml_choice_witness:
  "architecture cfg_arm = ''arm64''
   \<and> fs_pathExists env_arm_file [] ''/data/apps/store/app/docker-compose.arm64.yml'' = Inr True
   \<and> (case fst (getDockerComposeYaml env_arm_file cfg_arm ''store_app'' []) of
        Inl e \<Rightarrow> False
      | Inr r \<Rightarrow> path r = ''/data/apps/store/app/docker-compose.arm64.yml'')
   \<and> ''/data/apps/store/app/docker-compose.arm64.yml''
       \<noteq> ''/data/apps/store/app/docker-compose.yml''"
proof -
  have a: "architecture cfg_arm = ''arm64''"
    by (simp add: cfg_arm_def)
  have x: "fs_pathExists env_arm_file []
             ''/data/apps/store/app/docker-compose.arm64.yml'' = Inr True"
    by (simp add: env_arm_file_def env_ok_def)
  have y: "architecture cfg_arm = ''arm64'' \<longrightarrow>
      fs_pathExists env_arm_file []
        (path_join [appInstalledDir \<lparr>appDataDir = ''/app-data/store/app'',
                                     appInstalledDir = ''/data/apps/store/app''\<rparr>,
                    ''docker-compose.arm64.yml'']) = Inr True"
    using x by (simp add: store_app_files)
  from compose_yaml_choice [OF getAppPaths_store_app y] a x
  show ?thesis
    by (simp add: store_app_files Let_def split: sum.splits)
qed

text \<open>
  C10: for an app id on which \<^verbatim>\<open>getAppPaths\<close> succeeds and whose \<^verbatim>\<open>app.env\<close> in the app
  data directory does not exist, \<^verbatim>\<open>getAppEnv\<close> returns normally with the empty string as
  content. \<^verbatim>\<open>getUserEnv\<close> and \<^verbatim>\<open>getUserComposeFile\<close> return \<^verbatim>\<open>null\<close> as content when their
  file under the user-config directory does not exist.
\<close>

theorem missing_env_file_content:
  "(getAppPaths cfg appId = Inr ps
      \<and> fs_pathExists env h (path_join [appDataDir ps, ''app.env'']) = Inr False
    \<longrightarrow> fst (getAppEnv env cfg appId h) =
          Inr \<lparr>path = path_join [appDataDir ps, ''app.env''], content = []\<rparr>)
   \<and> (fs_pathExists env h
         (path_join [dataDir (directories cfg), ''user-config'', appId, ''app.env''])
           = Inr False
    \<longrightarrow> fst (getUserEnv env cfg appId h) =
          Inr \<lparr>path = path_join [dataDir (directories cfg), ''user-config'', appId,
                                  ''app.env''],
               content = None\<rparr>)
   \<and> (fs_pathExists env h
         (path_join [dataDir (directories cfg), ''user-config'', appId, ''docker-compose.yml''])
           = Inr False
    \<longrightarrow> fst (getUserComposeFile env cfg appId h) =
          Inr \<lparr>path = path_join [dataDir (directories cfg), ''user-config'', appId,
                                  ''docker-compose.yml''],
               content = None\<rparr>)"
  by (simp add: getAppEnv_def getUserEnv_def getUserComposeFile_def io_defs Let_def)

theorem missing_env_file_content_witness:
  "fs_pathExists env_ok [] ''/app-data/store/app/app.env'' = Inr False
   \<and> fst (getAppEnv env_ok cfg_arm ''store_app'' []) =
       Inr \<lparr>path = ''/app-data/store/app/app.env'', content = []\<rparr>
   \<and> fst (getUserEnv env_ok cfg_arm ''store_app'' []) =
       Inr \<lparr>path = ''/data/user-config/store_app/app.env'', content = None\<rparr>
   \<and> fst (getUserComposeFile env_ok cfg_arm ''store_app'' []) =
       Inr \<lparr>path = ''/data/user-config/store_app/docker-compose.yml'', content = None\<rparr>"
proof -
  have d: "dataDir (directories cfg_arm) = ''/data''"
    by (simp add: cfg_arm_def)
  have x: "\<And>h p. fs_pathExists env_ok h p = Inr False"
    by (simp add: env_ok_def)
  from missing_env_file_content
         [of cfg_arm "''store_app''"
             "\<lparr>appDataDir = ''/app-data/store/app'', appInstalledDir = ''/data/apps/store/app''\<rparr>"
             env_ok "[]"]
  show ?thesis
    by (simp add: getAppPaths_store_app d x store_app_files)
qed

end
